theory Spec2Isabelle
  imports Complex_Main
begin

section \<open>Go strings and the case mappings of package strings\<close>

text \<open>
  A Go string is a sequence of bytes; it is modelled by \<^typ>\<open>string\<close>, whose characters
  are the 256 byte values. \<open>strings.ToLower\<close> and \<open>strings.ToUpper\<close> are not ASCII
  functions: a string holding a byte \<open>\<ge> 0x80\<close> is decoded as UTF-8 and every rune is
  mapped through the Unicode case tables. Both paths are modelled.
\<close>

type_synonym rune = nat

definition byte :: "char \<Rightarrow> nat" where
  "byte c = of_char c"

definition RuneSelf :: nat where
  "RuneSelf = 0x80"

definition RuneError :: rune where
  "RuneError = 0xFFFD"

definition cont :: "nat \<Rightarrow> bool" where
  \<comment> \<open>a UTF-8 continuation byte\<close>
  "cont b \<longleftrightarrow> 0x80 \<le> b \<and> b \<le> 0xBF"

definition second_lo :: "nat \<Rightarrow> nat" where
  \<comment> \<open>accept range of the second byte, by leading byte (\<open>utf8.acceptRanges\<close>)\<close>
  "second_lo b0 = (if b0 = 0xE0 then 0xA0 else if b0 = 0xF0 then 0x90 else 0x80)"

definition second_hi :: "nat \<Rightarrow> nat" where
  "second_hi b0 = (if b0 = 0xED then 0x9F else if b0 = 0xF4 then 0x8F else 0xBF)"

text \<open>
  \<open>utf8.DecodeRuneInString\<close>: the first rune of a byte sequence and its width. A
  well-formed UTF-8 sequence gives its code point; anything else gives \<open>RuneError\<close>
  with width 1 (width 0 for the empty sequence).
\<close>

fun DecodeRune :: "nat list \<Rightarrow> rune \<times> nat" where
  "DecodeRune [] = (RuneError, 0)"
| "DecodeRune (b0 # bs) =
    (if b0 < 0x80 then (b0, 1)
     else if 0xC2 \<le> b0 \<and> b0 \<le> 0xDF then
       (case bs of
          b1 # _ \<Rightarrow>
            if cont b1 then ((b0 mod 0x20) * 0x40 + b1 mod 0x40, 2)
            else (RuneError, 1)
        | _ \<Rightarrow> (RuneError, 1))
     else if 0xE0 \<le> b0 \<and> b0 \<le> 0xEF then
       (case bs of
          b1 # b2 # _ \<Rightarrow>
            if second_lo b0 \<le> b1 \<and> b1 \<le> second_hi b0 \<and> cont b2
            then ((b0 mod 0x10) * 0x1000 + (b1 mod 0x40) * 0x40 + b2 mod 0x40, 3)
            else (RuneError, 1)
        | _ \<Rightarrow> (RuneError, 1))
     else if 0xF0 \<le> b0 \<and> b0 \<le> 0xF4 then
       (case bs of
          b1 # b2 # b3 # _ \<Rightarrow>
            if second_lo b0 \<le> b1 \<and> b1 \<le> second_hi b0 \<and> cont b2 \<and> cont b3
            then ((b0 mod 0x08) * 0x40000 + (b1 mod 0x40) * 0x1000
                    + (b2 mod 0x40) * 0x40 + b3 mod 0x40, 4)
            else (RuneError, 1)
        | _ \<Rightarrow> (RuneError, 1))
     else (RuneError, 1))"

text \<open>
  \<open>runes\<close> is the sequence of runes that \<open>for _, c := range s\<close> yields: decode one
  rune, skip its width, go on. The width of a rune decoded from a non-empty sequence is
  at least 1, so the first byte is always consumed.
\<close>

fun runes :: "nat list \<Rightarrow> rune list" where
  "runes [] = []"
| "runes (b0 # bs) = (case DecodeRune (b0 # bs) of (r, n) \<Rightarrow> r # runes (drop (n - 1) bs))"

definition ValidRune :: "rune \<Rightarrow> bool" where
  \<comment> \<open>\<open>utf8.ValidRune\<close>: not a surrogate, at most \<open>MaxRune\<close>\<close>
  "ValidRune r \<longleftrightarrow> r < 0xD800 \<or> (0xDFFF < r \<and> r \<le> 0x10FFFF)"

definition EncodeRune :: "rune \<Rightarrow> nat list" where
  \<comment> \<open>\<open>utf8.AppendRune\<close>: surrogates and values above \<open>0x10FFFF\<close> are written as \<open>RuneError\<close>\<close>
  "EncodeRune r =
    (if r < 0x80 then [r]
     else if r < 0x800 then [0xC0 + r div 0x40, 0x80 + r mod 0x40]
     else if 0x10FFFF < r \<or> (0xD800 \<le> r \<and> r \<le> 0xDFFF) then [0xEF, 0xBF, 0xBD]
     else if r < 0x10000 then
       [0xE0 + r div 0x1000, 0x80 + (r div 0x40) mod 0x40, 0x80 + r mod 0x40]
     else
       [0xF0 + r div 0x40000, 0x80 + (r div 0x1000) mod 0x40,
        0x80 + (r div 0x40) mod 0x40, 0x80 + r mod 0x40])"

text \<open>
  The case tables of package unicode are outside this repository. The model carries the
  ASCII rows and the rows of the four non-ASCII runes whose case partner is an ASCII
  letter: U+0130 (lower \<open>i\<close>), U+212A KELVIN SIGN (lower \<open>k\<close>), U+0131 DOTLESS I
  (upper \<open>I\<close>) and U+017F LONG S (upper \<open>S\<close>). Every other rune is left unchanged
  here, where Go may map it to another non-ASCII rune. A string is recognised only if its
  lowercased form is all ASCII, every entry of the allowlist below being ASCII; so this
  cannot change the result of \<open>IsLicenseFilename\<close> on a string, on its lowercased
  form or on its uppercased form.
\<close>

definition unicode_ToLower :: "rune \<Rightarrow> rune" where
  "unicode_ToLower r =
    (if 0x41 \<le> r \<and> r \<le> 0x5A then r + 0x20
     else if r = 0x130 then 0x69
     else if r = 0x212A then 0x6B
     else r)"

definition unicode_ToUpper :: "rune \<Rightarrow> rune" where
  "unicode_ToUpper r =
    (if 0x61 \<le> r \<and> r \<le> 0x7A then r - 0x20
     else if r = 0x131 then 0x49
     else if r = 0x17F then 0x53
     else r)"

definition Map_str :: "(rune \<Rightarrow> rune) \<Rightarrow> string \<Rightarrow> string" where
  \<comment> \<open>\<open>strings.Map\<close> for a mapping that never returns a negative rune\<close>
  "Map_str mapping s = map char_of (concat (map (\<lambda>c. EncodeRune (mapping c)) (runes (map byte s))))"

definition isASCII :: "string \<Rightarrow> bool" where
  "isASCII s = list_all (\<lambda>c. byte c < RuneSelf) s"

definition lower_byte :: "char \<Rightarrow> char" where
  \<comment> \<open>\<open>if 'A' <= c && c <= 'Z' { c += 'a' - 'A' }\<close>\<close>
  "lower_byte c = (if 0x41 \<le> byte c \<and> byte c \<le> 0x5A then char_of (byte c + 0x20) else c)"

definition upper_byte :: "char \<Rightarrow> char" where
  \<comment> \<open>\<open>if 'a' <= c && c <= 'z' { c -= 'a' - 'A' }\<close>\<close>
  "upper_byte c = (if 0x61 \<le> byte c \<and> byte c \<le> 0x7A then char_of (byte c - 0x20) else c)"

definition ToLower :: "string \<Rightarrow> string" where
  "ToLower s = (if isASCII s then map lower_byte s else Map_str unicode_ToLower s)"

definition ToUpper :: "string \<Rightarrow> string" where
  "ToUpper s = (if isASCII s then map upper_byte s else Map_str unicode_ToUpper s)"

section \<open>The allowlist of license filenames\<close>

definition Filenames :: "string list" where
  "Filenames =
    [''COPYING'',
     ''COPYING.md'',
     ''COPYING.markdown'',
     ''COPYING.txt'',
     ''LICENCE'',
     ''LICENCE.md'',
     ''LICENCE.markdown'',
     ''LICENCE.txt'',
     ''LICENSE'',
     ''LICENSE.md'',
     ''LICENSE.markdown'',
     ''LICENSE.txt'',
     ''LICENSE-2.0.txt'',
     ''LICENCE-2.0.txt'',
     ''LICENSE-APACHE'',
     ''LICENCE-APACHE'',
     ''LICENSE-APACHE-2.0.txt'',
     ''LICENCE-APACHE-2.0.txt'',
     ''LICENSE-MIT'',
     ''LICENCE-MIT'',
     ''LICENSE.MIT'',
     ''LICENCE.MIT'',
     ''LICENSE.code'',
     ''LICENCE.code'',
     ''LICENSE.docs'',
     ''LICENCE.docs'',
     ''LICENSE.rst'',
     ''LICENCE.rst'',
     ''MIT-LICENSE'',
     ''MIT-LICENCE'',
     ''MIT-LICENSE.md'',
     ''MIT-LICENCE.md'',
     ''MIT-LICENSE.markdown'',
     ''MIT-LICENCE.markdown'',
     ''MIT-LICENSE.txt'',
     ''MIT-LICENCE.txt'',
     ''MIT_LICENSE'',
     ''MIT_LICENCE'',
     ''UNLICENSE'',
     ''UNLICENCE'']"

text \<open>
  \<open>var filenames = make(map[string]struct{})\<close>, filled by \<open>init\<close>: the loop over
  \<open>Filenames\<close> stores each name lowercased. The map starts empty.
\<close>

fun init_loop :: "string list \<Rightarrow> (string \<rightharpoonup> unit) \<Rightarrow> (string \<rightharpoonup> unit)" where
  "init_loop [] m = m"
| "init_loop (v # vs) m = init_loop vs (m(ToLower v \<mapsto> ()))"

definition filenames :: "string \<rightharpoonup> unit" where
  "filenames = init_loop Filenames Map.empty"

definition IsLicenseFilename :: "string \<Rightarrow> bool" where
  "IsLicenseFilename s = (case filenames (ToLower s) of Some _ \<Rightarrow> True | None \<Rightarrow> False)"

section \<open>Errors\<close>

text \<open>
  Go error values. \<open>ErrNotExist\<close> is \<open>os.ErrNotExist\<close>, \<open>EOF\<close> is \<open>io.EOF\<close>;
  \<open>errorString\<close> is what \<open>errors.New\<close> and \<open>fmt.Errorf\<close> (without \<open>%w\<close>) build;
  \<open>PathError\<close> is the \<open>*fs.PathError\<close> of a failed system call (operation, path,
  cause).
\<close>

datatype error =
    ErrNotExist
  | EOF
  | errorString string
  | PathError string string string

fun Error :: "error \<Rightarrow> string" where
  "Error ErrNotExist = ''file does not exist''"
| "Error EOF = ''EOF''"
| "Error (errorString s) = s"
| "Error (PathError op' path msg) = op' @ '' '' @ path @ '': '' @ msg"

section \<open>float64 and its formatting verbs\<close>

text \<open>
  The values of a \<open>float64\<close>: not-a-number, the infinities, negative zero, and the
  finite values with their exact rational value (\<open>Finite 0\<close> is positive zero). Every
  finite float64 is a rational; the model admits every rational, so what holds for all
  values of the model holds for all float64 values. The verbs \<open>%f\<close> and \<open>%3.1f\<close> of
  package fmt print the exact value rounded to 6 and to 1 decimals, a tie going to the
  even digit; \<open>NaN\<close>, \<open>+Inf\<close> and \<open>-Inf\<close> are printed so.
\<close>

datatype float64 = NaN | PosInf | NegInf | NegZero | Finite rat

fun fval :: "float64 \<Rightarrow> rat" where
  "fval (Finite q) = q"
| "fval _ = 0"

fun float_lt :: "float64 \<Rightarrow> float64 \<Rightarrow> bool" where
  \<comment> \<open>Go's \<open><\<close> on float64: false as soon as one side is NaN\<close>
  "float_lt NaN _ = False"
| "float_lt _ NaN = False"
| "float_lt PosInf _ = False"
| "float_lt _ PosInf = True"
| "float_lt _ NegInf = False"
| "float_lt NegInf _ = True"
| "float_lt a b = (fval a < fval b)"

definition digit_char :: "nat \<Rightarrow> char" where
  "digit_char d = char_of (0x30 + d)"

fun digits :: "nat \<Rightarrow> string" where
  "digits n = (if n < 10 then [digit_char n] else digits (n div 10) @ [digit_char (n mod 10)])"

definition round_half_even :: "rat \<Rightarrow> nat" where
  \<comment> \<open>for \<open>x \<ge> 0\<close>: the nearest integer, a tie going to the even one\<close>
  "round_half_even x =
    (let f = \<lfloor>x\<rfloor>; d = x - of_int f
     in nat (if d < 1 / 2 then f else if 1 / 2 < d then f + 1 else if even f then f else f + 1))"

definition fixed :: "nat \<Rightarrow> rat \<Rightarrow> string" where
  \<comment> \<open>\<open>q \<ge> 0\<close> with exactly \<open>prec\<close> digits after the point\<close>
  "fixed prec q =
    (let n = round_half_even (q * 10 ^ prec); frac = digits (n mod 10 ^ prec)
     in digits (n div 10 ^ prec) @
        (if prec = 0 then [] else ''.'' @ replicate (prec - length frac) CHR ''0'' @ frac))"

fun fmt_float :: "nat \<Rightarrow> float64 \<Rightarrow> string" where
  "fmt_float prec NaN = ''NaN''"
| "fmt_float prec PosInf = ''+Inf''"
| "fmt_float prec NegInf = ''-Inf''"
| "fmt_float prec NegZero = ''-'' @ fixed prec 0"
| "fmt_float prec (Finite q) = (if q < 0 then ''-'' @ fixed prec (- q) else fixed prec q)"

definition pad :: "nat \<Rightarrow> string \<Rightarrow> string" where
  \<comment> \<open>a minimum field width: spaces on the left\<close>
  "pad w s = replicate (w - length s) CHR '' '' @ s"

definition fmt_f :: "float64 \<Rightarrow> string" where
  \<comment> \<open>the verb \<open>%f\<close> (default precision 6)\<close>
  "fmt_f x = fmt_float 6 x"

definition fmt_3_1f :: "float64 \<Rightarrow> string" where
  \<comment> \<open>the verb \<open>%3.1f\<close>\<close>
  "fmt_3_1f x = pad 3 (fmt_float 1 x)"

fun Join :: "string list \<Rightarrow> string \<Rightarrow> string" where
  \<comment> \<open>\<open>strings.Join\<close>\<close>
  "Join [] sep = []"
| "Join [a] sep = a"
| "Join (a # b # rest) sep = a @ sep @ Join (b # rest) sep"

section \<open>The scorer's result\<close>

text \<open>
  \<open>licensecheck.Type\<close> is an integer code of a license class; the program only compares
  two of them with \<open>==\<close>. The fields of \<open>licensecheck.Match\<close> and
  \<open>licensecheck.Coverage\<close> that the program reads; \<open>CovPercent\<close> and \<open>CovMatch\<close> are
  \<open>Coverage.Percent\<close> and \<open>Coverage.Match\<close>.
\<close>

type_synonym Type = nat

record Match =
  Name :: string
  Type :: Type
  Percent :: float64

record Coverage =
  CovPercent :: float64
  CovMatch :: "Match list"

section \<open>The operating system and the scorer\<close>

text \<open>
  What the program reaches outside itself: the working directory of the process, the
  directories of the file system (each with its entries in the order a listing returns
  them), and \<open>licensecheck.Cover\<close> with default options, a function from the
  document's bytes to a coverage and the flag \<open>ok\<close>.
\<close>

datatype node = File string | Dir

record env =
  cwd :: string
  dirs :: "(string \<times> (string \<times> node) list) list"
  Cover :: "string \<Rightarrow> Coverage \<times> bool"

text \<open>
  An open directory is known by the name it was opened with; \<open>"."\<close> stands for the
  working directory, which the program never changes. Opening \<open>"."\<close> always succeeds,
  also when the working directory has been removed (it is then absent from \<open>dirs\<close>):
  it is the listing that fails in that case.
\<close>

datatype os_File = os_File string

definition dir_of :: "env \<Rightarrow> string \<Rightarrow> string" where
  \<comment> \<open>the directory that a name given to \<open>os.Open\<close> refers to\<close>
  "dir_of e path = (if path = ''.'' then cwd e else path)"

definition os_Open :: "env \<Rightarrow> string \<Rightarrow> error + os_File" where
  \<comment> \<open>\<open>os.Open\<close> of a directory\<close>
  "os_Open e path =
    (if path = ''.'' then Inr (os_File path)
     else case map_of (dirs e) path of
            None \<Rightarrow> Inl (PathError ''open'' path ''no such file or directory'')
          | Some _ \<Rightarrow> Inr (os_File path))"

text \<open>
  \<open>type DirnamesReader interface { Readdirnames(int) ([]string, error) }\<close>: a value of
  the interface is its one method.
\<close>

type_synonym DirnamesReader = "int \<Rightarrow> string list \<times> error option"

fun File_Readdirnames :: "env \<Rightarrow> os_File \<Rightarrow> DirnamesReader" where
  \<comment> \<open>\<open>(*os.File).Readdirnames\<close>: all the names when \<open>n \<le> 0\<close>\<close>
  "File_Readdirnames e (os_File p) n =
    (case map_of (dirs e) (dir_of e p) of
       None \<Rightarrow> ([], Some (PathError ''readdirent'' p ''no such file or directory''))
     | Some entries \<Rightarrow>
         if n \<le> 0 then (map fst entries, None)
         else if entries = [] then ([], Some EOF)
         else (take (nat n) (map fst entries), None))"

definition ioutil_ReadFile :: "env \<Rightarrow> string \<Rightarrow> string \<times> error option" where
  \<comment> \<open>\<open>ioutil.ReadFile\<close> of a plain entry name: the name is resolved against the working
      directory of the process\<close>
  "ioutil_ReadFile e filename =
    (case map_of (dirs e) (cwd e) of
       None \<Rightarrow> ([], Some (PathError ''open'' filename ''no such file or directory''))
     | Some entries \<Rightarrow>
         (case map_of entries filename of
            None \<Rightarrow> ([], Some (PathError ''open'' filename ''no such file or directory''))
          | Some Dir \<Rightarrow> ([], Some (PathError ''read'' filename ''is a directory''))
          | Some (File b) \<Rightarrow> (b, None)))"

section \<open>Reading the license file\<close>

fun ReadLicenseDir_loop :: "env \<Rightarrow> string list \<Rightarrow> string \<times> string \<times> error option" where
  \<comment> \<open>\<open>for _, filename = range names\<close>, and the \<open>return\<close> after it\<close>
  "ReadLicenseDir_loop e [] = ([], [], Some ErrNotExist)"
| "ReadLicenseDir_loop e (filename # names) =
    (if IsLicenseFilename filename then
       (case ioutil_ReadFile e filename of (b, err) \<Rightarrow> (filename, b, err))
     else ReadLicenseDir_loop e names)"

definition ReadLicenseDir :: "env \<Rightarrow> DirnamesReader \<Rightarrow> string \<times> string \<times> error option" where
  "ReadLicenseDir e dir =
    (case dir 0 of
       (names, Some err) \<Rightarrow> ([], [], Some err)
     | (names, None) \<Rightarrow> ReadLicenseDir_loop e names)"

definition ReadLicense :: "env \<Rightarrow> string \<times> string \<times> error option" where
  "ReadLicense e =
    (case os_Open e ''.'' of
       Inl err \<Rightarrow> ([], [], Some err)
     | Inr f \<Rightarrow> ReadLicenseDir e (File_Readdirnames e f))"

section \<open>The assertion\<close>

fun assertLicense_loop :: "Match list \<Rightarrow> Type \<Rightarrow> string list \<Rightarrow> error option" where
  \<comment> \<open>\<open>for _, m := range cov.Match\<close> with the slice \<open>list\<close>, and the \<open>return\<close> after it\<close>
  "assertLicense_loop [] want list =
     Some (errorString (''license does not match. found: '' @ Join list '',''))"
| "assertLicense_loop (m # ms) want list =
    (if Type m = want then None
     else assertLicense_loop ms want (list @ [Name m @ ''('' @ fmt_3_1f (Percent m) @ ''%)'']))"

definition assertLicense :: "env \<Rightarrow> string \<Rightarrow> Type \<Rightarrow> float64 \<Rightarrow> error option" where
  "assertLicense e b want percent =
    (case Cover e b of (cov, ok) \<Rightarrow>
       if \<not> ok then Some (errorString ''license not found'')
       else if float_lt (CovPercent cov) percent then
         Some (errorString (''percentage '' @ fmt_f (CovPercent cov) @
                            '' is less than wanted '' @ fmt_f percent))
       else assertLicense_loop (CovMatch cov) want [])"

definition AssertLicenseDir :: "env \<Rightarrow> DirnamesReader \<Rightarrow> Type \<Rightarrow> float64 \<Rightarrow> error option" where
  "AssertLicenseDir e dir want percent =
    (case ReadLicenseDir e dir of
       (_, b, Some err) \<Rightarrow> Some err
     | (_, b, None) \<Rightarrow> assertLicense e b want percent)"

definition AssertLicense :: "env \<Rightarrow> Type \<Rightarrow> float64 \<Rightarrow> error option" where
  "AssertLicense e want percent =
    (case ReadLicense e of
       (_, b, Some err) \<Rightarrow> Some err
     | (_, b, None) \<Rightarrow> assertLicense e b want percent)"

section \<open>The test wrappers\<close>

text \<open>
  The part of \<open>*testing.T\<close> that \<open>t.Fatal\<close> touches: the log, the failure mark, and
  whether the test function was stopped (\<open>FailNow\<close> ends it with \<open>runtime.Goexit\<close>).
\<close>

record T =
  logs :: "string list"
  failed :: bool
  stopped :: bool

definition Fatal :: "T \<Rightarrow> error \<Rightarrow> T" where
  \<comment> \<open>\<open>t.Fatal(err)\<close> is \<open>t.Log(err)\<close> followed by \<open>t.FailNow()\<close>\<close>
  "Fatal t err = t\<lparr>logs := logs t @ [Error err], failed := True, stopped := True\<rparr>"

definition TestPercent :: "env \<Rightarrow> T \<Rightarrow> Type \<Rightarrow> float64 \<Rightarrow> T" where
  "TestPercent e t want percent =
    (case AssertLicense e want percent of
       Some err \<Rightarrow> Fatal t err
     | None \<Rightarrow> t)"

definition Test :: "env \<Rightarrow> T \<Rightarrow> Type \<Rightarrow> T" where
  "Test e t want = TestPercent e t want (Finite 90)"

section \<open>Example inputs\<close>

text \<open>
  A file system with a few directories, and a scorer that knows a few documents; any
  other document has no coverage. The type codes \<open>2\<close>, \<open>3\<close> and \<open>8\<close> stand for
  three license classes; the two BSD documents are of the same class and have different
  names. Every percentage is a value that a float64 holds exactly (\<open>1523 / 16\<close> is
  95.1875, printed as \<open>95.2\<close> with one digit).
\<close>

definition example_dirs :: "(string \<times> (string \<times> node) list) list" where
  "example_dirs =
    [(''/proj'', [(''README.md'', File ''readme''), (''LICENSE'', File ''MIT License'')]),
     (''/work'', [(''main.go'', File ''package main''), (''LICENSE'', File ''Apache License'')]),
     (''/docs'', [(''README.md'', File ''readme''), (''main.go'', File ''package main'')]),
     (''/odd'', [(''COPYING'', Dir)]),
     (''/blank'', [(''UNLICENSE'', File ''readme'')]),
     (''/part'', [(''notes.txt'', File ''readme''), (''Licence.txt'', File ''partial'')])]"

definition example_Cover :: "string \<Rightarrow> Coverage \<times> bool" where
  "example_Cover b =
    (if b = ''MIT License'' then
       (\<lparr>CovPercent = Finite 95,
         CovMatch = [\<lparr>Name = ''MIT'', Type = 8, Percent = Finite 95\<rparr>]\<rparr>, True)
     else if b = ''Apache License'' then
       (\<lparr>CovPercent = Finite (1523 / 16),
         CovMatch = [\<lparr>Name = ''Apache-2.0'', Type = 2, Percent = Finite (1523 / 16)\<rparr>,
                     \<lparr>Name = ''MIT'', Type = 8, Percent = Finite 10\<rparr>]\<rparr>, True)
     else if b = ''partial'' then
       (\<lparr>CovPercent = Finite 72,
         CovMatch = [\<lparr>Name = ''MIT'', Type = 8, Percent = Finite 72\<rparr>]\<rparr>, True)
     else if b = ''BSD 3-Clause License'' then
       (\<lparr>CovPercent = Finite 95,
         CovMatch = [\<lparr>Name = ''BSD-3-Clause'', Type = 3, Percent = Finite 95\<rparr>]\<rparr>, True)
     else if b = ''BSD 2-Clause License'' then
       (\<lparr>CovPercent = Finite 95,
         CovMatch = [\<lparr>Name = ''BSD-2-Clause'', Type = 3, Percent = Finite 95\<rparr>]\<rparr>, True)
     else if b = ''bare'' then
       (\<lparr>CovPercent = Finite 100, CovMatch = []\<rparr>, True)
     else (\<lparr>CovPercent = Finite 0, CovMatch = []\<rparr>, False))"

definition example_env :: "string \<Rightarrow> env" where
  \<comment> \<open>the process running in the directory \<open>wd\<close>\<close>
  "example_env wd = \<lparr>cwd = wd, dirs = example_dirs, Cover = example_Cover\<rparr>"

definition long_s_name :: string where
  \<comment> \<open>\<open>licen\<close>, U+017F LATIN SMALL LETTER LONG S in UTF-8, \<open>e\<close>\<close>
  "long_s_name = ''licen'' @ [CHR 0xC5, CHR 0xBF] @ ''e''"

definition kelvin_name :: string where
  \<comment> \<open>\<open>COPYING.mar\<close>, U+212A KELVIN SIGN in UTF-8, \<open>down\<close>\<close>
  "kelvin_name = ''COPYING.mar'' @ [CHR 0xE2, CHR 0x84, CHR 0xAA] @ ''down''"

definition example_T :: T where
  "example_T = \<lparr>logs = [], failed = False, stopped = False\<rparr>"

section \<open>The allowlist and its lookup set\<close>

lemma init_loop_lookup:
  "init_loop vs m k = (if k \<in> set (map ToLower vs) then Some () else m k)"
  by (induction vs arbitrary: m) auto

lemma IsLicenseFilename_iff:
  "IsLicenseFilename s \<longleftrightarrow> ToLower s \<in> set (map ToLower Filenames)"
  by (simp add: IsLicenseFilename_def filenames_def init_loop_lookup)

lemma lowered_Filenames:
  "map ToLower Filenames =
    [''copying'', ''copying.md'', ''copying.markdown'', ''copying.txt'',
     ''licence'', ''licence.md'', ''licence.markdown'', ''licence.txt'',
     ''license'', ''license.md'', ''license.markdown'', ''license.txt'',
     ''license-2.0.txt'', ''licence-2.0.txt'', ''license-apache'',
     ''licence-apache'', ''license-apache-2.0.txt'',
     ''licence-apache-2.0.txt'', ''license-mit'', ''licence-mit'',
     ''license.mit'', ''licence.mit'', ''license.code'', ''licence.code'',
     ''license.docs'', ''licence.docs'', ''license.rst'', ''licence.rst'',
     ''mit-license'', ''mit-licence'', ''mit-license.md'', ''mit-licence.md'',
     ''mit-license.markdown'', ''mit-licence.markdown'', ''mit-license.txt'',
     ''mit-licence.txt'', ''mit_license'', ''mit_licence'', ''unlicense'',
     ''unlicence'']"
  by (simp add: Filenames_def ToLower_def isASCII_def byte_def RuneSelf_def lower_byte_def
        char_of_eq_iff)

lemma ToLower_ascii_simps:
  "ToLower ''README.md'' = ''readme.md''"
  "ToLower ''main.go'' = ''main.go''"
  "ToLower ''LICENSE'' = ''license''"
  "ToLower ''COPYING'' = ''copying''"
  "ToLower ''UNLICENSE'' = ''unlicense''"
  "ToLower ''notes.txt'' = ''notes.txt''"
  "ToLower ''Licence.txt'' = ''licence.txt''"
  "ToLower ''License.TXT'' = ''license.txt''"
  "ToLower ''LICENSE.md.bak'' = ''license.md.bak''"
  "ToLower ''LICENS'' = ''licens''"
  by (simp_all add: ToLower_def isASCII_def byte_def RuneSelf_def lower_byte_def char_of_eq_iff)

lemma IsLicenseFilename_examples:
  "\<not> IsLicenseFilename ''README.md''"
  "\<not> IsLicenseFilename ''main.go''"
  "IsLicenseFilename ''LICENSE''"
  "IsLicenseFilename ''COPYING''"
  "IsLicenseFilename ''UNLICENSE''"
  "\<not> IsLicenseFilename ''notes.txt''"
  "IsLicenseFilename ''Licence.txt''"
  "IsLicenseFilename ''License.TXT''"
  "\<not> IsLicenseFilename ''LICENSE.md.bak''"
  "\<not> IsLicenseFilename ''LICENS''"
  unfolding IsLicenseFilename_iff lowered_Filenames ToLower_ascii_simps by simp_all

text \<open>
  C6. \<open>IsLicenseFilename name\<close> is true exactly when the lowercased name equals the
  lowercased form of some entry of \<open>Filenames\<close>: the whole name is compared, so a name
  that only starts with an entry, or is a prefix of one, is not recognised. In particular
  \<open>IsLicenseFilename "README.md"\<close> is false.
\<close>

theorem IsLicenseFilename_exact:
  "(IsLicenseFilename name \<longleftrightarrow> (\<exists>entry \<in> set Filenames. ToLower name = ToLower entry))
   \<and> \<not> IsLicenseFilename ''README.md''
   \<and> \<not> IsLicenseFilename ''LICENSE.md.bak''
   \<and> \<not> IsLicenseFilename ''LICENS''
   \<and> IsLicenseFilename ''License.TXT''"
proof -
  have "IsLicenseFilename name \<longleftrightarrow> (\<exists>entry \<in> set Filenames. ToLower name = ToLower entry)"
    by (auto simp: IsLicenseFilename_iff)
  then show ?thesis
    using IsLicenseFilename_examples by simp
qed

text \<open>
  C9. After \<open>init\<close>, the lookup set holds exactly the lowercased names of \<open>Filenames\<close>:
  the sequence has 40 entries, their lowercased forms are pairwise distinct, the keys of
  \<open>filenames\<close> are those 40 lowercased names and nothing else. The lookup set is a
  constant of the model: \<open>init\<close> is its only writer, and no function of the package
  takes or returns it.
\<close>

theorem filenames_invariant:
  "length Filenames = 40
   \<and> distinct (map ToLower Filenames)
   \<and> dom filenames = set (map ToLower Filenames)
   \<and> card (dom filenames) = 40"
proof -
  have len: "length Filenames = 40"
    by (simp add: Filenames_def)
  have dist: "distinct (map ToLower Filenames)"
    unfolding lowered_Filenames by simp
  have keys: "dom filenames = set (map ToLower Filenames)"
    by (auto simp: filenames_def init_loop_lookup dom_def)
  have "card (set (map ToLower Filenames)) = length (map ToLower Filenames)"
    using dist by (rule distinct_card)
  with len keys have "card (dom filenames) = 40"
    by simp
  with len dist keys show ?thesis
    by simp
qed

section \<open>UTF-8: decoding what was encoded\<close>

lemma lead_mod: "q < n \<Longrightarrow> (k * n + q) mod n = (q::nat)"
  by simp

lemma mask_simps:
  "q < 32 \<Longrightarrow> (192 + q) mod 32 = (q::nat)"
  "q < 16 \<Longrightarrow> (224 + q) mod 16 = (q::nat)"
  "q < 8 \<Longrightarrow> (240 + q) mod 8 = (q::nat)"
  "q < 64 \<Longrightarrow> (128 + q) mod 64 = (q::nat)"
  using lead_mod [of q 32 6] lead_mod [of q 16 14] lead_mod [of q 8 30] lead_mod [of q 64 2]
  by simp_all

lemma cont_128: "q < 64 \<Longrightarrow> cont (128 + q)"
  by (simp add: cont_def)

lemma Decode_Encode1: "r < 0x80 \<Longrightarrow> DecodeRune (EncodeRune r @ rest) = (r, 1)"
  by (simp add: EncodeRune_def)

lemma Decode_Encode2:
  assumes "0x80 \<le> r" "r < 0x800"
  shows "EncodeRune r = [0xC0 + r div 0x40, 0x80 + r mod 0x40]"
    and "DecodeRune (EncodeRune r @ rest) = (r, 2)"
proof -
  define q where "q = r div 0x40"
  define m where "m = r mod 0x40"
  have r: "r = q * 0x40 + m" by (simp add: q_def m_def)
  have qm: "2 \<le> q" "q < 32" "m < 64"
    using assms by (simp_all add: q_def m_def less_mult_imp_div_less)
  show e: "EncodeRune r = [0xC0 + r div 0x40, 0x80 + r mod 0x40]"
    using assms by (simp add: EncodeRune_def)
  have a: "\<not> 0xC0 + q < 0x80" "0xC2 \<le> 0xC0 + q" "0xC0 + q \<le> 0xDF"
    using qm by simp_all
  show "DecodeRune (EncodeRune r @ rest) = (r, 2)"
    unfolding e q_def[symmetric] m_def[symmetric] using a qm
    by (simp add: r mask_simps cont_128 del: add_numeral_left)
qed

lemma Decode_Encode3:
  assumes "0x800 \<le> r" "r < 0x10000" "ValidRune r"
  shows "DecodeRune (EncodeRune r @ rest) = (r, 3) \<and> length (EncodeRune r) = 3"
proof -
  define q1 where "q1 = r div 0x40"
  define d where "d = r mod 0x40"
  define a where "a = q1 div 0x40"
  define c where "c = q1 mod 0x40"
  have r: "r = q1 * 0x40 + d" by (simp add: q1_def d_def)
  have q1: "q1 = a * 0x40 + c" by (simp add: a_def c_def)
  have d1: "r div 0x1000 = a"
    using div_mult2_eq [of r "0x40" "0x40"] by (simp add: a_def q1_def)
  have bounds: "d < 64" "c < 64" by (simp_all add: d_def c_def)
  have abound: "a < 16" using assms r q1 bounds by arith
  have lo: "a = 0 \<Longrightarrow> 32 \<le> c" using assms r q1 bounds by arith
  have hi: "a = 13 \<Longrightarrow> c \<le> 31" using assms r q1 bounds by (simp add: ValidRune_def)
  have ns: "\<not> (0x10FFFF < r \<or> (0xD800 \<le> r \<and> r \<le> 0xDFFF))"
    using assms by (auto simp: ValidRune_def)
  have e: "EncodeRune r = [0xE0 + a, 0x80 + c, 0x80 + d]"
    using assms(1,2) ns by (auto simp: EncodeRune_def d1 q1_def[symmetric] c_def d_def)
  have b0: "\<not> 0xE0 + a < 0x80" "\<not> (0xC2 \<le> 0xE0 + a \<and> 0xE0 + a \<le> 0xDF)"
      "0xE0 \<le> 0xE0 + a" "0xE0 + a \<le> 0xEF"
    using abound by simp_all
  have sl: "second_lo (0xE0 + a) \<le> 0x80 + c"
    using lo bounds abound by (auto simp: second_lo_def)
  have sh: "0x80 + c \<le> second_hi (0xE0 + a)"
    using hi bounds abound by (auto simp: second_hi_def)
  have val: "a * 0x1000 + c * 0x40 + d = r" using r q1 by simp
  show ?thesis unfolding e using b0 sl sh bounds abound val
    by (simp add: mask_simps cont_128 del: add_numeral_left)
qed

lemma Decode_Encode4:
  assumes "0x10000 \<le> r" "ValidRune r"
  shows "DecodeRune (EncodeRune r @ rest) = (r, 4) \<and> length (EncodeRune r) = 4"
proof -
  define q1 where "q1 = r div 0x40"
  define d where "d = r mod 0x40"
  define q2 where "q2 = q1 div 0x40"
  define c where "c = q1 mod 0x40"
  define a where "a = q2 div 0x40"
  define b where "b = q2 mod 0x40"
  have r: "r = q1 * 0x40 + d" by (simp add: q1_def d_def)
  have q1: "q1 = q2 * 0x40 + c" by (simp add: q2_def c_def)
  have q2: "q2 = a * 0x40 + b" by (simp add: a_def b_def)
  have d1: "r div 0x1000 = q2"
    using div_mult2_eq [of r "0x40" "0x40"] by (simp add: q2_def q1_def)
  have d2: "r div 0x40000 = a"
    using div_mult2_eq [of r "0x1000" "0x40"] by (simp add: d1 a_def)
  have bounds: "d < 64" "c < 64" "b < 64" by (simp_all add: d_def c_def b_def)
  have rmax: "r \<le> 0x10FFFF" using assms by (simp add: ValidRune_def)
  have abound: "a \<le> 4" using rmax r q1 q2 bounds by arith
  have lo: "a = 0 \<Longrightarrow> 16 \<le> b" using assms r q1 q2 bounds by arith
  have hi: "a = 4 \<Longrightarrow> b \<le> 15" using rmax r q1 q2 bounds by arith
  have ns: "\<not> (0x10FFFF < r \<or> (0xD800 \<le> r \<and> r \<le> 0xDFFF))"
    using assms by (auto simp: ValidRune_def)
  have e: "EncodeRune r = [0xF0 + a, 0x80 + b, 0x80 + c, 0x80 + d]"
    using assms(1) ns by (simp add: EncodeRune_def d1 d2 q1_def[symmetric] b_def c_def d_def)
  have b0: "\<not> 0xF0 + a < 0x80" "\<not> (0xC2 \<le> 0xF0 + a \<and> 0xF0 + a \<le> 0xDF)"
      "\<not> (0xE0 \<le> 0xF0 + a \<and> 0xF0 + a \<le> 0xEF)"
      "0xF0 \<le> 0xF0 + a" "0xF0 + a \<le> 0xF4" "a < 8"
    using abound by simp_all
  have sl: "second_lo (0xF0 + a) \<le> 0x80 + b"
    using lo bounds abound by (auto simp: second_lo_def)
  have sh: "0x80 + b \<le> second_hi (0xF0 + a)"
    using hi bounds abound by (auto simp: second_hi_def)
  have val: "a * 0x40000 + b * 0x1000 + c * 0x40 + d = r" using r q1 q2 by simp
  show ?thesis unfolding e using b0 sl sh bounds val
    by (simp add: mask_simps cont_128 del: add_numeral_left)
qed

lemma Decode_Encode:
  assumes "ValidRune r"
  shows "DecodeRune (EncodeRune r @ rest) = (r, length (EncodeRune r))"
proof -
  consider "r < 0x80" | "0x80 \<le> r" "r < 0x800" | "0x800 \<le> r" "r < 0x10000" | "0x10000 \<le> r"
    by linarith
  then show ?thesis
  proof cases
    case 1
    then show ?thesis using Decode_Encode1 [of r rest] by (simp add: EncodeRune_def)
  next
    case 2
    then show ?thesis using Decode_Encode2 [of r] by simp
  next
    case 3
    then show ?thesis using Decode_Encode3 [of r rest] assms by simp
  next
    case 4
    then show ?thesis using Decode_Encode4 [of r rest] assms by simp
  qed
qed

lemma EncodeRune_not_Nil: "EncodeRune r \<noteq> []"
  by (simp add: EncodeRune_def)

lemma runes_Encode: "ValidRune r \<Longrightarrow> runes (EncodeRune r @ rest) = r # runes rest"
proof -
  assume v: "ValidRune r"
  obtain b0 t where e: "EncodeRune r = b0 # t"
    using EncodeRune_not_Nil [of r] by (cases "EncodeRune r") auto
  have "DecodeRune (b0 # t @ rest) = (r, Suc (length t))"
    using Decode_Encode [OF v, of rest] by (simp add: e)
  then show ?thesis
    by (simp add: e del: DecodeRune.simps)
qed

lemma runes_concat_Encode:
  "\<forall>r \<in> set rs. ValidRune r \<Longrightarrow> runes (concat (map EncodeRune rs)) = rs"
  by (induction rs) (simp_all add: runes_Encode del: runes.simps(2))

lemma EncodeRune_bytes: "b \<in> set (EncodeRune r) \<Longrightarrow> b < 256"
proof -
  assume b: "b \<in> set (EncodeRune r)"
  have 1: "r < 0x800 \<Longrightarrow> r div 0x40 < 32" by simp
  have 2: "r < 0x10000 \<Longrightarrow> r div 0x1000 < 16" by simp
  have 3: "r \<le> 0x10FFFF \<Longrightarrow> r div 0x40000 \<le> 4" by simp
  have m: "r mod 0x40 < 64" "(r div 0x40) mod 0x40 < 64" "(r div 0x1000) mod 0x40 < 64" by simp_all
  show ?thesis
    using b 1 2 3 m by (auto simp: EncodeRune_def split: if_splits)
qed

lemma mod_window: "k * n \<le> x \<Longrightarrow> x < k * n + n \<Longrightarrow> x mod n = x - k * (n::nat)"
proof -
  assume a: "k * n \<le> x" "x < k * n + n"
  define y where "y = x - k * n"
  have "x = k * n + y" "y < n" using a by (simp_all add: y_def)
  then show ?thesis by simp
qed

lemma unmask:
  "0xC0 \<le> x \<Longrightarrow> x \<le> 0xDF \<Longrightarrow> x mod 0x20 = x - (0xC0::nat)"
  "0xE0 \<le> x \<Longrightarrow> x \<le> 0xEF \<Longrightarrow> x mod 0x10 = x - (0xE0::nat)"
  "0xF0 \<le> x \<Longrightarrow> x \<le> 0xF7 \<Longrightarrow> x mod 0x08 = x - (0xF0::nat)"
  "0x80 \<le> x \<Longrightarrow> x \<le> 0xBF \<Longrightarrow> x mod 0x40 = x - (0x80::nat)"
  using mod_window [of 6 32 x] mod_window [of 14 16 x] mod_window [of 30 8 x] mod_window [of 2 64 x]
  by simp_all

lemma second_window: "second_lo b0 \<le> b1 \<Longrightarrow> b1 \<le> second_hi b0 \<Longrightarrow> 0x80 \<le> b1 \<and> b1 \<le> 0xBF"
  by (auto simp: second_lo_def second_hi_def split: if_splits)

lemma decoded2_valid:
  "ValidRune ((b0 mod 0x20) * 0x40 + b1 mod 0x40)"
proof -
  have "b0 mod 0x20 < 32" "b1 mod 0x40 < 64" by simp_all
  then show ?thesis unfolding ValidRune_def by arith
qed

lemma decoded3_valid:
  assumes "0xE0 \<le> b0" "b0 \<le> 0xEF" "second_lo b0 \<le> b1" "b1 \<le> second_hi b0"
  shows "ValidRune ((b0 mod 0x10) * 0x1000 + (b1 mod 0x40) * 0x40 + b2 mod 0x40)"
proof -
  define a where "a = b0 mod 0x10"
  define c where "c = b1 mod 0x40"
  define d where "d = b2 mod 0x40"
  have w: "0x80 \<le> b1" "b1 \<le> 0xBF" using second_window [OF assms(3,4)] by simp_all
  have m: "a = b0 - 0xE0" "c = b1 - 0x80"
    using assms w by (simp_all add: unmask a_def c_def)
  have bounds: "c < 64" "d < 64" by (simp_all add: c_def d_def)
  have "a = 13 \<Longrightarrow> b0 = 0xED" using m(1) assms(1) by linarith
  then have h: "a = 13 \<Longrightarrow> c \<le> 31" using assms(4) m(2) by (simp add: second_hi_def)
  consider "a \<le> 12" | "a = 13" | "14 \<le> a" "a \<le> 15"
    using m(1) assms(1,2) by linarith
  then have "ValidRune (a * 0x1000 + c * 0x40 + d)"
  proof cases
    case 1
    then show ?thesis unfolding ValidRune_def using bounds by simp
  next
    case 2
    then show ?thesis unfolding ValidRune_def using bounds h by simp
  next
    case 3
    then show ?thesis unfolding ValidRune_def using bounds by simp
  qed
  then show ?thesis by (simp add: a_def c_def d_def)
qed

lemma decoded4_valid:
  assumes "0xF0 \<le> b0" "b0 \<le> 0xF4" "second_lo b0 \<le> b1" "b1 \<le> second_hi b0"
  shows "ValidRune ((b0 mod 0x08) * 0x40000 + (b1 mod 0x40) * 0x1000
                    + (b2 mod 0x40) * 0x40 + b3 mod 0x40)"
proof -
  define a where "a = b0 mod 0x08"
  define b where "b = b1 mod 0x40"
  define c where "c = b2 mod 0x40"
  define d where "d = b3 mod 0x40"
  have w: "0x80 \<le> b1" "b1 \<le> 0xBF" using second_window [OF assms(3,4)] by simp_all
  have m: "a = b0 - 0xF0" "b = b1 - 0x80"
    using assms w by (simp_all add: unmask a_def b_def)
  have bounds: "b < 64" "c < 64" "d < 64" by (simp_all add: b_def c_def d_def)
  have "a = 4 \<Longrightarrow> b0 = 0xF4" using m(1) assms(1) by linarith
  then have h: "a = 4 \<Longrightarrow> b \<le> 15" using assms(4) m(2) by (simp add: second_hi_def)
  have "a = 0 \<Longrightarrow> b0 = 0xF0" using m(1) assms(1) by linarith
  then have l: "a = 0 \<Longrightarrow> 16 \<le> b" using assms(3) m(2) by (simp add: second_lo_def)
  consider "a = 0" | "1 \<le> a" "a \<le> 3" | "a = 4"
    using m(1) assms(1,2) by linarith
  then have "ValidRune (a * 0x40000 + b * 0x1000 + c * 0x40 + d)"
  proof cases
    case 1
    then show ?thesis unfolding ValidRune_def using bounds l by simp
  next
    case 2
    then show ?thesis unfolding ValidRune_def using bounds by simp
  next
    case 3
    then show ?thesis unfolding ValidRune_def using bounds h by simp
  qed
  then show ?thesis by (simp add: a_def b_def c_def d_def)
qed

lemma ValidRune_RuneError: "ValidRune RuneError"
  by (simp add: ValidRune_def RuneError_def)

lemma DecodeRune_valid: "ValidRune (fst (DecodeRune bs))"
proof (cases bs)
  case Nil
  then show ?thesis by (simp add: ValidRune_RuneError)
next
  case (Cons b0 t)
  have small: "b0 < 0x80 \<Longrightarrow> ValidRune b0" by (simp add: ValidRune_def)
  show ?thesis
    unfolding Cons
    using small decoded2_valid decoded3_valid decoded4_valid ValidRune_RuneError
    by (auto split: list.splits)
qed

lemma runes_valid: "r \<in> set (runes bs) \<Longrightarrow> ValidRune r"
proof (induction bs arbitrary: r rule: runes.induct)
  case 1
  then show ?case by simp
next
  case (2 b0 bs)
  obtain c n where d: "DecodeRune (b0 # bs) = (c, n)"
    by (cases "DecodeRune (b0 # bs)")
  have "ValidRune c"
    using DecodeRune_valid [of "b0 # bs"] by (simp add: d del: DecodeRune.simps)
  moreover have "r \<in> set (runes (drop (n - 1) bs)) \<Longrightarrow> ValidRune r"
    using "2.IH" [OF d [symmetric]] by simp
  ultimately show ?case
    using "2.prems" by (auto simp: d simp del: DecodeRune.simps)
qed

section \<open>Case mapping of strings\<close>

lemma byte_less_256: "byte c < 256"
  by (simp add: byte_def)

lemma char_of_byte: "char_of (byte c) = c"
  by (simp add: byte_def)

lemma map_byte_char_of: "\<forall>b \<in> set xs. b < 256 \<Longrightarrow> map byte (map char_of xs) = xs"
  by (induction xs) (simp_all add: byte_def)

lemma runes_ascii: "\<forall>b \<in> set bs. b < 0x80 \<Longrightarrow> runes bs = bs"
  by (induction bs) simp_all

lemma runes_Map_str:
  assumes "\<And>r. ValidRune r \<Longrightarrow> ValidRune (f r)"
  shows "runes (map byte (Map_str f s)) = map f (runes (map byte s))"
proof -
  let ?rs = "runes (map byte s)"
  have bytes: "\<forall>b \<in> set (concat (map (\<lambda>c. EncodeRune (f c)) ?rs)). b < 256"
    by (auto dest: EncodeRune_bytes)
  have valid: "\<forall>r \<in> set (map f ?rs). ValidRune r"
    using assms runes_valid by auto
  have "runes (map byte (Map_str f s)) = runes (concat (map EncodeRune (map f ?rs)))"
    unfolding Map_str_def using map_byte_char_of [OF bytes] by (simp add: comp_def)
  also have "\<dots> = map f ?rs"
    using valid by (rule runes_concat_Encode)
  finally show ?thesis .
qed

lemma Map_str_Map_str:
  assumes "\<And>r. ValidRune r \<Longrightarrow> ValidRune (f r)"
  shows "Map_str g (Map_str f s) = Map_str (\<lambda>r. g (f r)) s"
  using runes_Map_str [of f s, OF assms] by (simp add: Map_str_def comp_def)

lemma Map_str_cong:
  "\<forall>r \<in> set (runes (map byte s)). f r = g r \<Longrightarrow> Map_str f s = Map_str g s"
  by (simp add: Map_str_def cong: map_cong)

lemma Map_str_ascii:
  assumes "isASCII s" and "\<And>b. b < 0x80 \<Longrightarrow> f b < 0x80"
  shows "Map_str f s = map (\<lambda>c. char_of (f (byte c))) s"
proof -
  have a: "\<forall>b \<in> set (map byte s). b < 0x80"
    using assms(1) by (simp add: isASCII_def RuneSelf_def list_all_iff)
  have "concat (map (\<lambda>c. EncodeRune (f c)) (map byte s)) = map (\<lambda>c. f (byte c)) s"
    using a assms(2) by (induction s) (simp_all add: EncodeRune_def)
  then show ?thesis
    by (simp add: Map_str_def runes_ascii [OF a])
qed

lemma unicode_ToLower_ascii: "b < 0x80 \<Longrightarrow> unicode_ToLower b < 0x80"
  by (simp add: unicode_ToLower_def)

lemma unicode_ToUpper_ascii: "b < 0x80 \<Longrightarrow> unicode_ToUpper b < 0x80"
  by (auto simp: unicode_ToUpper_def)

lemma lower_byte_eq: "byte c < 0x80 \<Longrightarrow> char_of (unicode_ToLower (byte c)) = lower_byte c"
  by (simp add: unicode_ToLower_def lower_byte_def char_of_byte)

lemma upper_byte_eq: "byte c < 0x80 \<Longrightarrow> char_of (unicode_ToUpper (byte c)) = upper_byte c"
  by (simp add: unicode_ToUpper_def upper_byte_def char_of_byte)

lemma ToLower_Map_str: "ToLower s = Map_str unicode_ToLower s"
proof (cases "isASCII s")
  case True
  then have "\<forall>c \<in> set s. byte c < 0x80"
    by (simp add: isASCII_def RuneSelf_def list_all_iff)
  then have "map (\<lambda>c. char_of (unicode_ToLower (byte c))) s = map lower_byte s"
    by (simp add: lower_byte_eq)
  then show ?thesis
    using True Map_str_ascii [OF True unicode_ToLower_ascii] by (simp add: ToLower_def)
next
  case False
  then show ?thesis by (simp add: ToLower_def)
qed

lemma ToUpper_Map_str: "ToUpper s = Map_str unicode_ToUpper s"
proof (cases "isASCII s")
  case True
  then have "\<forall>c \<in> set s. byte c < 0x80"
    by (simp add: isASCII_def RuneSelf_def list_all_iff)
  then have "map (\<lambda>c. char_of (unicode_ToUpper (byte c))) s = map upper_byte s"
    by (simp add: upper_byte_eq)
  then show ?thesis
    using True Map_str_ascii [OF True unicode_ToUpper_ascii] by (simp add: ToUpper_def)
next
  case False
  then show ?thesis by (simp add: ToUpper_def)
qed

lemma unicode_ToLower_valid: "ValidRune r \<Longrightarrow> ValidRune (unicode_ToLower r)"
  by (auto simp: unicode_ToLower_def ValidRune_def)

lemma unicode_ToUpper_valid: "ValidRune r \<Longrightarrow> ValidRune (unicode_ToUpper r)"
  by (auto simp: unicode_ToUpper_def ValidRune_def)

lemma unicode_ToLower_idem: "unicode_ToLower (unicode_ToLower r) = unicode_ToLower r"
  by (simp add: unicode_ToLower_def)

lemma unicode_ToLower_ToUpper:
  "r \<noteq> 0x131 \<Longrightarrow> r \<noteq> 0x17F \<Longrightarrow> unicode_ToLower (unicode_ToUpper r) = unicode_ToLower r"
  by (auto simp: unicode_ToLower_def unicode_ToUpper_def)

lemma ToLower_idem: "ToLower (ToLower s) = ToLower s"
  unfolding ToLower_Map_str
  using Map_str_Map_str [of unicode_ToLower unicode_ToLower s, OF unicode_ToLower_valid]
  by (simp add: unicode_ToLower_idem)

lemma ToLower_ToUpper:
  assumes "0x131 \<notin> set (runes (map byte s))" and "0x17F \<notin> set (runes (map byte s))"
  shows "ToLower (ToUpper s) = ToLower s"
proof -
  have "Map_str unicode_ToLower (Map_str unicode_ToUpper s) =
          Map_str (\<lambda>r. unicode_ToLower (unicode_ToUpper r)) s"
    by (rule Map_str_Map_str) (rule unicode_ToUpper_valid)
  also have "\<dots> = Map_str unicode_ToLower s"
  proof (rule Map_str_cong, rule ballI)
    fix r
    assume "r \<in> set (runes (map byte s))"
    then have "r \<noteq> 0x131" "r \<noteq> 0x17F"
      using assms by auto
    then show "unicode_ToLower (unicode_ToUpper r) = unicode_ToLower r"
      by (rule unicode_ToLower_ToUpper)
  qed
  finally show ?thesis
    by (simp add: ToLower_Map_str ToUpper_Map_str)
qed

lemma isASCII_runes: "isASCII s \<Longrightarrow> r \<in> set (runes (map byte s)) \<Longrightarrow> r < 0x80"
proof -
  assume a: "isASCII s" and r: "r \<in> set (runes (map byte s))"
  have "\<forall>b \<in> set (map byte s). b < 0x80"
    using a by (simp add: isASCII_def RuneSelf_def list_all_iff)
  then have "runes (map byte s) = map byte s" "\<forall>b \<in> set (map byte s). b < 0x80"
    by (simp_all add: runes_ascii)
  then show ?thesis using r by auto
qed

lemma long_s_name_eval:
  "runes (map byte long_s_name) = [0x6C, 0x69, 0x63, 0x65, 0x6E, 0x17F, 0x65]"
  "ToUpper long_s_name = ''LICENSE''"
  "ToLower long_s_name = long_s_name"
  by (simp_all add: long_s_name_def ToUpper_def ToLower_def isASCII_def RuneSelf_def byte_def
        Map_str_def cont_def EncodeRune_def unicode_ToUpper_def unicode_ToLower_def char_of_eq_iff)

lemma kelvin_name_eval:
  "runes (map byte kelvin_name) =
     [0x43, 0x4F, 0x50, 0x59, 0x49, 0x4E, 0x47, 0x2E, 0x6D, 0x61, 0x72, 0x212A, 0x64, 0x6F, 0x77, 0x6E]"
  "ToLower kelvin_name = ''copying.markdown''"
  by (simp_all add: kelvin_name_def ToLower_def isASCII_def RuneSelf_def byte_def
        Map_str_def cont_def second_lo_def second_hi_def EncodeRune_def unicode_ToLower_def
        char_of_eq_iff)

text \<open>
  C5, as the code has it. \<open>IsLicenseFilename\<close> gives the same answer on a string and on
  its lowercased form, for every string. It gives the same answer on a string and on its
  uppercased form for every string of ASCII bytes, and more generally for every string
  that holds neither of the two runes whose uppercase is an ASCII letter while their
  lowercase is not: U+0131 (dotless i) and U+017F (long s).
\<close>

theorem IsLicenseFilename_case_insensitive:
  "IsLicenseFilename (ToLower s) = IsLicenseFilename s
   \<and> (isASCII s \<longrightarrow> IsLicenseFilename (ToUpper s) = IsLicenseFilename s)
   \<and> (0x131 \<notin> set (runes (map byte s)) \<and> 0x17F \<notin> set (runes (map byte s)) \<longrightarrow>
        IsLicenseFilename (ToUpper s) = IsLicenseFilename s)"
proof -
  have lower: "IsLicenseFilename (ToLower s) = IsLicenseFilename s"
    by (simp add: IsLicenseFilename_iff ToLower_idem)
  have upper: "IsLicenseFilename (ToUpper s) = IsLicenseFilename s"
    if "0x131 \<notin> set (runes (map byte s))" and "0x17F \<notin> set (runes (map byte s))"
    using that by (simp add: IsLicenseFilename_iff ToLower_ToUpper)
  have ascii: "0x131 \<notin> set (runes (map byte s)) \<and> 0x17F \<notin> set (runes (map byte s))"
    if "isASCII s"
    using isASCII_runes [OF that, of "0x131"] isASCII_runes [OF that, of "0x17F"] by auto
  show ?thesis
    using lower upper ascii by blast
qed

theorem IsLicenseFilename_case_insensitive_witness:
  "isASCII ''License.TXT''
   \<and> IsLicenseFilename ''License.TXT''
   \<and> IsLicenseFilename (ToLower ''License.TXT'')
   \<and> IsLicenseFilename (ToUpper ''License.TXT'')
   \<and> 0x131 \<notin> set (runes (map byte kelvin_name))
   \<and> 0x17F \<notin> set (runes (map byte kelvin_name))
   \<and> IsLicenseFilename kelvin_name
   \<and> IsLicenseFilename (ToUpper kelvin_name)"
proof -
  have a: "isASCII ''License.TXT''"
    by (simp add: isASCII_def RuneSelf_def byte_def)
  have i: "IsLicenseFilename ''License.TXT''"
    by (rule IsLicenseFilename_examples)
  have r: "0x131 \<notin> set (runes (map byte kelvin_name))" "0x17F \<notin> set (runes (map byte kelvin_name))"
    unfolding kelvin_name_eval by simp_all
  have k: "IsLicenseFilename kelvin_name"
    unfolding IsLicenseFilename_iff kelvin_name_eval lowered_Filenames by simp
  show ?thesis
    using a i r k IsLicenseFilename_case_insensitive [of "''License.TXT''"]
      IsLicenseFilename_case_insensitive [of kelvin_name]
    by simp
qed

text \<open>
  The claim C5 as stated fails for the uppercased form: the name \<open>licen\<close>U+017F\<open>e\<close>
  (with a long s) is not recognised, its uppercased form is \<open>LICENSE\<close>, which is.
\<close>

theorem IsLicenseFilename_case_insensitive_counterexample:
  "ToUpper long_s_name = ''LICENSE''
   \<and> IsLicenseFilename (ToUpper long_s_name)
   \<and> \<not> IsLicenseFilename long_s_name"
proof -
  have u: "IsLicenseFilename (ToUpper long_s_name)"
    unfolding long_s_name_eval by (rule IsLicenseFilename_examples)
  have "long_s_name \<notin> set (map ToLower Filenames)"
    unfolding lowered_Filenames by (simp add: long_s_name_def)
  then have l: "\<not> IsLicenseFilename long_s_name"
    by (simp add: IsLicenseFilename_iff long_s_name_eval)
  show ?thesis
    using u l by (simp add: long_s_name_eval)
qed

section \<open>Evaluating the formatting verbs\<close>

lemma digits_lt10: "n < 10 \<Longrightarrow> digits n = [digit_char n]"
  by simp

lemma digits_ge10: "10 \<le> n \<Longrightarrow> digits n = digits (n div 10) @ [digit_char (n mod 10)]"
  by simp

declare digits.simps [simp del]

lemma replicate_num: "replicate (numeral k) x = x # replicate (pred_numeral k) x"
  by (simp add: numeral_eq_Suc)

lemma floor_rat_numeral: "\<lfloor>numeral a / numeral b :: rat\<rfloor> = numeral a div numeral b"
  by (metis floor_divide_of_int_eq of_int_numeral)

lemmas fmt_eval = fmt_f_def fmt_3_1f_def fixed_def round_half_even_def Let_def digit_char_def
  pad_def char_of_eq_iff digits_lt10 digits_ge10 replicate_num floor_rat_numeral

lemma fmt_examples:
  "fmt_f (Finite 72) = ''72.000000''"
  "fmt_f (Finite 90) = ''90.000000''"
  "fmt_f (Finite 50) = ''50.000000''"
  "fmt_3_1f (Finite (1523 / 16)) = ''95.2''"
  "fmt_3_1f (Finite 10) = ''10.0''"
  "fmt_3_1f (Finite 95) = ''95.0''"
  by (simp_all add: fmt_eval)

section \<open>Evaluating the example inputs\<close>

lemmas example_eval = ReadLicenseDir_def ReadLicense_def os_Open_def dir_of_def ioutil_ReadFile_def
  example_env_def example_dirs_def IsLicenseFilename_examples

lemma example_ReadLicenseDir:
  "ReadLicenseDir (example_env ''/proj'') (File_Readdirnames (example_env ''/proj'') (os_File ''/proj'')) =
     (''LICENSE'', ''MIT License'', None)"
  "ReadLicenseDir (example_env ''/work'') (File_Readdirnames (example_env ''/work'') (os_File ''/work'')) =
     (''LICENSE'', ''Apache License'', None)"
  "ReadLicenseDir (example_env ''/work'') (File_Readdirnames (example_env ''/work'') (os_File ''/proj'')) =
     (''LICENSE'', ''Apache License'', None)"
  "ReadLicenseDir (example_env ''/work'') (File_Readdirnames (example_env ''/work'') (os_File ''/docs'')) =
     ([], [], Some ErrNotExist)"
  "ReadLicenseDir (example_env ''/odd'') (File_Readdirnames (example_env ''/odd'') (os_File ''/odd'')) =
     (''COPYING'', [], Some (PathError ''read'' ''COPYING'' ''is a directory''))"
  by (simp_all add: example_eval)

lemma example_ReadLicense:
  "ReadLicense (example_env ''/proj'') = (''LICENSE'', ''MIT License'', None)"
  "ReadLicense (example_env ''/work'') = (''LICENSE'', ''Apache License'', None)"
  "ReadLicense (example_env ''/docs'') = ([], [], Some ErrNotExist)"
  "ReadLicense (example_env ''/blank'') = (''UNLICENSE'', ''readme'', None)"
  "ReadLicense (example_env ''/gone'') =
     ([], [], Some (PathError ''readdirent'' ''.'' ''no such file or directory''))"
  by (simp_all add: example_eval)

lemma example_Cover_simps:
  "Cover (example_env wd) ''MIT License'' =
     (\<lparr>CovPercent = Finite 95, CovMatch = [\<lparr>Name = ''MIT'', Type = 8, Percent = Finite 95\<rparr>]\<rparr>, True)"
  "Cover (example_env wd) ''Apache License'' =
     (\<lparr>CovPercent = Finite (1523 / 16),
         CovMatch = [\<lparr>Name = ''Apache-2.0'', Type = 2, Percent = Finite (1523 / 16)\<rparr>,
                     \<lparr>Name = ''MIT'', Type = 8, Percent = Finite 10\<rparr>]\<rparr>, True)"
  "Cover (example_env wd) ''partial'' =
     (\<lparr>CovPercent = Finite 72, CovMatch = [\<lparr>Name = ''MIT'', Type = 8, Percent = Finite 72\<rparr>]\<rparr>, True)"
  "Cover (example_env wd) ''BSD 3-Clause License'' =
     (\<lparr>CovPercent = Finite 95,
         CovMatch = [\<lparr>Name = ''BSD-3-Clause'', Type = 3, Percent = Finite 95\<rparr>]\<rparr>, True)"
  "Cover (example_env wd) ''BSD 2-Clause License'' =
     (\<lparr>CovPercent = Finite 95,
         CovMatch = [\<lparr>Name = ''BSD-2-Clause'', Type = 3, Percent = Finite 95\<rparr>]\<rparr>, True)"
  "Cover (example_env wd) ''bare'' = (\<lparr>CovPercent = Finite 100, CovMatch = []\<rparr>, True)"
  "Cover (example_env wd) ''readme'' = (\<lparr>CovPercent = Finite 0, CovMatch = []\<rparr>, False)"
  by (simp_all add: example_env_def example_Cover_def)

section \<open>The assertion step\<close>

lemma assertLicense_loop_eq:
  "assertLicense_loop ms want list =
    (if \<exists>m \<in> set ms. Type m = want then None
     else Some (errorString (''license does not match. found: '' @
            Join (list @ map (\<lambda>m. Name m @ ''('' @ fmt_3_1f (Percent m) @ ''%)'') ms) '','')))"
  by (induction ms arbitrary: list) auto

lemma AssertLicenseDir_read_ok:
  "ReadLicenseDir e dir = (fn, b, None) \<Longrightarrow>
     AssertLicenseDir e dir want percent = assertLicense e b want percent"
  by (simp add: AssertLicenseDir_def)

lemma AssertLicense_read_ok:
  "ReadLicense e = (fn, b, None) \<Longrightarrow>
     AssertLicense e want percent = assertLicense e b want percent"
  by (simp add: AssertLicense_def)

lemma ReadLicenseDir_loop_eq:
  "ReadLicenseDir_loop e names =
    (case find IsLicenseFilename names of
       None \<Rightarrow> ([], [], Some ErrNotExist)
     | Some filename \<Rightarrow>
         (filename, fst (ioutil_ReadFile e filename), snd (ioutil_ReadFile e filename)))"
  by (induction names) (auto split: prod.splits)

text \<open>
  C2, as the code has it. When the scorer reports a coverage and its percentage is not
  below the threshold, the assertion step walks the matches in the scorer's order: it
  returns nil when some match has the wanted type (whatever follows that match is not
  looked at), and otherwise an error whose message lists every match, in the scorer's
  order and joined by commas, each as the match's \<open>Name\<close> (the license name the scorer
  gave, not the \<open>Type\<close> that was compared) followed by its percentage in parentheses.
  \<open>AssertLicenseDir\<close> is this step applied to the bytes that \<open>ReadLicenseDir\<close> returned.
\<close>

theorem assertLicense_type_scan:
  assumes "Cover e b = (cov, True)" and "\<not> float_lt (CovPercent cov) percent"
  shows "assertLicense e b want percent =
           (if \<exists>m \<in> set (CovMatch cov). Type m = want then None
            else Some (errorString (''license does not match. found: '' @
                   Join (map (\<lambda>m. Name m @ ''('' @ fmt_3_1f (Percent m) @ ''%)'') (CovMatch cov)) '','')))
         \<and> (Type m = want \<longrightarrow> assertLicense_loop (pre @ m # post) want list = None)
         \<and> (ReadLicenseDir e dir = (fn, b, None) \<longrightarrow>
              AssertLicenseDir e dir want percent = assertLicense e b want percent)"
  using assms by (simp add: assertLicense_def assertLicense_loop_eq AssertLicenseDir_read_ok)

theorem assertLicense_type_scan_witness:
  "Cover (example_env ''/work'') ''Apache License'' =
     (\<lparr>CovPercent = Finite (1523 / 16),
         CovMatch = [\<lparr>Name = ''Apache-2.0'', Type = 2, Percent = Finite (1523 / 16)\<rparr>,
                     \<lparr>Name = ''MIT'', Type = 8, Percent = Finite 10\<rparr>]\<rparr>, True)
   \<and> \<not> float_lt (Finite (1523 / 16)) (Finite 90)
   \<and> assertLicense (example_env ''/work'') ''Apache License'' 8 (Finite 90) = None
   \<and> assertLicense (example_env ''/work'') ''Apache License'' 5 (Finite 90) =
       Some (errorString ''license does not match. found: Apache-2.0(95.2%),MIT(10.0%)'')
   \<and> AssertLicenseDir (example_env ''/work'')
         (File_Readdirnames (example_env ''/work'') (os_File ''/work'')) 5 (Finite 90) =
       Some (errorString ''license does not match. found: Apache-2.0(95.2%),MIT(10.0%)'')"
proof -
  let ?e = "example_env ''/work''"
  let ?cov = "\<lparr>CovPercent = Finite (1523 / 16),
         CovMatch = [\<lparr>Name = ''Apache-2.0'', Type = 2, Percent = Finite (1523 / 16)\<rparr>,
                     \<lparr>Name = ''MIT'', Type = 8, Percent = Finite 10\<rparr>]\<rparr>"
  have c: "Cover ?e ''Apache License'' = (?cov, True)"
    by (rule example_Cover_simps)
  have p: "\<not> float_lt (CovPercent ?cov) (Finite 90)"
    by simp
  have r: "ReadLicenseDir ?e (File_Readdirnames ?e (os_File ''/work'')) =
             (''LICENSE'', ''Apache License'', None)"
    by (rule example_ReadLicenseDir)
  note t8 = assertLicense_type_scan [OF c p, of 8]
  note t5 = assertLicense_type_scan [OF c p, of 5 _ _ _ _ "File_Readdirnames ?e (os_File ''/work'')" "''LICENSE''"]
  show ?thesis
    using c p r t8 t5 by (simp add: fmt_examples)
qed

text \<open>
  The claim C2 as stated fails where it says that the message lists the found types: two
  documents whose single match has the same type and the same percentage, and a
  different name, give two different messages, each with the name of its match.
\<close>

theorem assertLicense_type_scan_counterexample:
  "map Type (CovMatch (fst (Cover (example_env ''/work'') ''BSD 3-Clause License''))) = [3]
   \<and> map Type (CovMatch (fst (Cover (example_env ''/work'') ''BSD 2-Clause License''))) = [3]
   \<and> assertLicense (example_env ''/work'') ''BSD 3-Clause License'' 8 (Finite 90) =
       Some (errorString ''license does not match. found: BSD-3-Clause(95.0%)'')
   \<and> assertLicense (example_env ''/work'') ''BSD 2-Clause License'' 8 (Finite 90) =
       Some (errorString ''license does not match. found: BSD-2-Clause(95.0%)'')"
  by (simp add: assertLicense_def example_Cover_simps fmt_examples)

text \<open>
  C3. When the scorer reports a coverage whose percentage is strictly below the
  threshold, the assertion fails with the message
  \<open>percentage <actual> is less than wanted <threshold>\<close>, both numbers printed with
  \<open>%f\<close>; the matches play no part in it (the result is the same for every list of
  matches), and \<open>AssertLicenseDir\<close> and \<open>AssertLicense\<close> return that error once the
  license file was read.
\<close>

theorem assertLicense_below_threshold:
  assumes "Cover e b = (cov, True)" and "float_lt (CovPercent cov) percent"
  shows "assertLicense e b want percent =
           Some (errorString (''percentage '' @ fmt_f (CovPercent cov) @
                              '' is less than wanted '' @ fmt_f percent))
         \<and> assertLicense (e\<lparr>Cover := \<lambda>_. (cov\<lparr>CovMatch := ms\<rparr>, True)\<rparr>) b want percent =
             assertLicense e b want percent
         \<and> (ReadLicenseDir e dir = (fn, b, None) \<longrightarrow>
              AssertLicenseDir e dir want percent = assertLicense e b want percent)
         \<and> (ReadLicense e = (fn', b, None) \<longrightarrow>
              AssertLicense e want percent = assertLicense e b want percent)"
  using assms by (simp add: assertLicense_def AssertLicenseDir_read_ok AssertLicense_read_ok)

theorem assertLicense_below_threshold_witness:
  "Cover (example_env ''/part'') ''partial'' =
     (\<lparr>CovPercent = Finite 72, CovMatch = [\<lparr>Name = ''MIT'', Type = 8, Percent = Finite 72\<rparr>]\<rparr>, True)
   \<and> float_lt (Finite 72) (Finite 90)
   \<and> assertLicense (example_env ''/part'') ''partial'' 8 (Finite 90) =
       Some (errorString ''percentage 72.000000 is less than wanted 90.000000'')
   \<and> ReadLicenseDir (example_env ''/part'') (File_Readdirnames (example_env ''/part'') (os_File ''/part'')) =
       (''Licence.txt'', ''partial'', None)
   \<and> AssertLicenseDir (example_env ''/part'')
         (File_Readdirnames (example_env ''/part'') (os_File ''/part'')) 8 (Finite 90) =
       Some (errorString ''percentage 72.000000 is less than wanted 90.000000'')
   \<and> ReadLicense (example_env ''/part'') = (''Licence.txt'', ''partial'', None)
   \<and> AssertLicense (example_env ''/part'') 8 (Finite 90) =
       Some (errorString ''percentage 72.000000 is less than wanted 90.000000'')"
proof -
  let ?e = "example_env ''/part''"
  let ?cov = "\<lparr>CovPercent = Finite 72, CovMatch = [\<lparr>Name = ''MIT'', Type = 8, Percent = Finite 72\<rparr>]\<rparr>"
  have c: "Cover ?e ''partial'' = (?cov, True)"
    by (rule example_Cover_simps)
  have p: "float_lt (CovPercent ?cov) (Finite 90)"
    by simp
  have r: "ReadLicenseDir ?e (File_Readdirnames ?e (os_File ''/part'')) = (''Licence.txt'', ''partial'', None)"
    by (simp add: example_eval)
  have r': "ReadLicense ?e = (''Licence.txt'', ''partial'', None)"
    by (simp add: example_eval)
  note t = assertLicense_below_threshold [OF c p, of 8 _ "File_Readdirnames ?e (os_File ''/part'')"
      "''Licence.txt''" "''Licence.txt''"]
  show ?thesis
    using c p r r' t by (simp add: fmt_examples)
qed

text \<open>
  C10. The assertion step returns nil only when the scorer reported a coverage, the
  percentage is not below the threshold and some match has the wanted type. With a
  coverage at or above the threshold and no match at all, it fails with the message
  \<open>license does not match. found: \<close> and an empty list.
\<close>

theorem assertLicense_nil_only_on_match:
  "(assertLicense e b want percent = None \<longrightarrow>
      snd (Cover e b) \<and> \<not> float_lt (CovPercent (fst (Cover e b))) percent \<and>
      (\<exists>m \<in> set (CovMatch (fst (Cover e b))). Type m = want))
   \<and> (Cover e b = (cov, True) \<and> \<not> float_lt (CovPercent cov) percent \<and> CovMatch cov = [] \<longrightarrow>
        assertLicense e b want percent = Some (errorString ''license does not match. found: ''))"
  by (auto simp: assertLicense_def assertLicense_loop_eq split: prod.splits if_splits)

theorem assertLicense_nil_only_on_match_witness:
  "Cover (example_env ''/proj'') ''bare'' = (\<lparr>CovPercent = Finite 100, CovMatch = []\<rparr>, True)
   \<and> \<not> float_lt (Finite 100) (Finite 90)
   \<and> assertLicense (example_env ''/proj'') ''bare'' 8 (Finite 90) =
       Some (errorString ''license does not match. found: '')
   \<and> assertLicense (example_env ''/proj'') ''MIT License'' 8 (Finite 90) = None
   \<and> (\<exists>m \<in> set (CovMatch (fst (Cover (example_env ''/proj'') ''MIT License''))). Type m = 8)"
proof -
  let ?e = "example_env ''/proj''"
  have c: "Cover ?e ''bare'' = (\<lparr>CovPercent = Finite 100, CovMatch = []\<rparr>, True)"
    by (rule example_Cover_simps)
  have n: "assertLicense ?e ''MIT License'' 8 (Finite 90) = None"
    by (simp add: assertLicense_def example_Cover_simps)
  show ?thesis
    using c n assertLicense_nil_only_on_match [of ?e "''bare''" 8 "Finite 90" "\<lparr>CovPercent = Finite 100, CovMatch = []\<rparr>"]
      assertLicense_nil_only_on_match [of ?e "''MIT License''" 8 "Finite 90"]
    by simp
qed

section \<open>Reading the directory\<close>

text \<open>
  C7. An error of the listing is returned as it is by \<open>ReadLicenseDir\<close> (with an empty
  filename and no contents) and by \<open>AssertLicenseDir\<close>. When the first recognised name
  cannot be read, \<open>ReadLicenseDir\<close> returns that name together with the error of the
  read, and \<open>AssertLicenseDir\<close> returns the same error; neither wraps it.
\<close>

theorem io_errors_pass_through:
  "(dir 0 = (names, Some err) \<longrightarrow>
      ReadLicenseDir e dir = ([], [], Some err) \<and>
      AssertLicenseDir e dir want percent = Some err)
   \<and> (dir 0 = (names, None) \<and> find IsLicenseFilename names = Some filename \<and>
       ioutil_ReadFile e filename = (b, Some err) \<longrightarrow>
      ReadLicenseDir e dir = (filename, b, Some err) \<and>
      AssertLicenseDir e dir want percent = Some err)"
  by (simp add: ReadLicenseDir_def AssertLicenseDir_def ReadLicenseDir_loop_eq)

theorem io_errors_pass_through_witness:
  "File_Readdirnames (example_env ''/work'') (os_File ''/gone'') 0 =
     ([], Some (PathError ''readdirent'' ''/gone'' ''no such file or directory''))
   \<and> ReadLicenseDir (example_env ''/work'') (File_Readdirnames (example_env ''/work'') (os_File ''/gone'')) =
       ([], [], Some (PathError ''readdirent'' ''/gone'' ''no such file or directory''))
   \<and> AssertLicenseDir (example_env ''/work'')
         (File_Readdirnames (example_env ''/work'') (os_File ''/gone'')) 8 (Finite 90) =
       Some (PathError ''readdirent'' ''/gone'' ''no such file or directory'')
   \<and> File_Readdirnames (example_env ''/odd'') (os_File ''/odd'') 0 = ([''COPYING''], None)
   \<and> find IsLicenseFilename [''COPYING''] = Some ''COPYING''
   \<and> ioutil_ReadFile (example_env ''/odd'') ''COPYING'' =
       ([], Some (PathError ''read'' ''COPYING'' ''is a directory''))
   \<and> ReadLicenseDir (example_env ''/odd'') (File_Readdirnames (example_env ''/odd'') (os_File ''/odd'')) =
       (''COPYING'', [], Some (PathError ''read'' ''COPYING'' ''is a directory''))
   \<and> AssertLicenseDir (example_env ''/odd'')
         (File_Readdirnames (example_env ''/odd'') (os_File ''/odd'')) 8 (Finite 90) =
       Some (PathError ''read'' ''COPYING'' ''is a directory'')"
proof -
  let ?w = "example_env ''/work''" and ?o = "example_env ''/odd''"
  have l1: "File_Readdirnames ?w (os_File ''/gone'') 0 =
      ([], Some (PathError ''readdirent'' ''/gone'' ''no such file or directory''))"
    by (simp add: example_env_def example_dirs_def dir_of_def)
  have l2: "File_Readdirnames ?o (os_File ''/odd'') 0 = ([''COPYING''], None)"
    by (simp add: example_env_def example_dirs_def dir_of_def)
  have f: "find IsLicenseFilename [''COPYING''] = Some ''COPYING''"
    by (simp add: IsLicenseFilename_examples)
  have r: "ioutil_ReadFile ?o ''COPYING'' = ([], Some (PathError ''read'' ''COPYING'' ''is a directory''))"
    by (simp add: example_eval)
  note a = io_errors_pass_through [of "File_Readdirnames ?w (os_File ''/gone'')" "[]"
      "PathError ''readdirent'' ''/gone'' ''no such file or directory''" ?w 8 "Finite 90"]
  note b = io_errors_pass_through [of "File_Readdirnames ?o (os_File ''/odd'')" "[''COPYING'']"
      "PathError ''read'' ''COPYING'' ''is a directory''" ?o 8 "Finite 90" "''COPYING''" "[]"]
  show ?thesis
    using l1 l2 f r a b by (simp del: File_Readdirnames.simps)
qed

text \<open>
  C4, as the code has it. The two not-found conditions give two different errors. When
  no name of the listing is recognised, \<open>ReadLicenseDir\<close> and \<open>ReadLicense\<close> return
  \<open>os.ErrNotExist\<close>, whose message is \<open>file does not exist\<close>, and the assertion
  functions \<open>AssertLicenseDir\<close> and \<open>AssertLicense\<close> fail with that same error, which
  \<open>TestPercent\<close> reports. When the scorer reports no coverage (its flag \<open>ok\<close> is
  false), the assertion step, \<open>AssertLicenseDir\<close> and \<open>AssertLicense\<close> fail with the
  error \<open>license not found\<close>, which \<open>TestPercent\<close> reports.
\<close>

theorem not_found_signals:
  "(dir 0 = (names, None) \<and> find IsLicenseFilename names = None \<longrightarrow>
      ReadLicenseDir e dir = ([], [], Some ErrNotExist) \<and>
      AssertLicenseDir e dir want percent = Some ErrNotExist)
   \<and> (os_Open e ''.'' = Inr f \<and> File_Readdirnames e f 0 = (names, None) \<and>
       find IsLicenseFilename names = None \<longrightarrow>
      ReadLicense e = ([], [], Some ErrNotExist) \<and>
      AssertLicense e want percent = Some ErrNotExist \<and>
      TestPercent e t want percent = Fatal t ErrNotExist)
   \<and> (\<not> snd (Cover e b) \<longrightarrow>
        assertLicense e b want percent = Some (errorString ''license not found''))
   \<and> (ReadLicenseDir e dir = (fn, b, None) \<and> \<not> snd (Cover e b) \<longrightarrow>
        AssertLicenseDir e dir want percent = Some (errorString ''license not found''))
   \<and> (ReadLicense e = (fn, b, None) \<and> \<not> snd (Cover e b) \<longrightarrow>
        AssertLicense e want percent = Some (errorString ''license not found'') \<and>
        TestPercent e t want percent = Fatal t (errorString ''license not found''))
   \<and> Error ErrNotExist = ''file does not exist''
   \<and> ErrNotExist \<noteq> errorString ''license not found''"
proof -
  have none: "ReadLicenseDir e d = ([], [], Some ErrNotExist)"
    if "d 0 = (names, None)" and "find IsLicenseFilename names = None" for d
    using that by (simp add: ReadLicenseDir_def ReadLicenseDir_loop_eq)
  have nocov: "assertLicense e b want percent = Some (errorString ''license not found'')"
    if "\<not> snd (Cover e b)"
    using that by (cases "Cover e b") (simp add: assertLicense_def)
  have 1: "ReadLicenseDir e dir = ([], [], Some ErrNotExist) \<and>
           AssertLicenseDir e dir want percent = Some ErrNotExist"
    if "dir 0 = (names, None)" and "find IsLicenseFilename names = None"
    using none [of dir, OF that] by (simp add: AssertLicenseDir_def)
  have 2: "ReadLicense e = ([], [], Some ErrNotExist) \<and>
           AssertLicense e want percent = Some ErrNotExist \<and>
           TestPercent e t want percent = Fatal t ErrNotExist"
    if "os_Open e ''.'' = Inr f" and "File_Readdirnames e f 0 = (names, None)"
      and "find IsLicenseFilename names = None"
    using that(1) none [of "File_Readdirnames e f", OF that(2,3)]
    by (simp add: ReadLicense_def AssertLicense_def TestPercent_def)
  have 3: "AssertLicenseDir e dir want percent = Some (errorString ''license not found'')"
    if "ReadLicenseDir e dir = (fn, b, None)" and "\<not> snd (Cover e b)"
    using that(1) nocov [OF that(2)] by (simp add: AssertLicenseDir_def)
  have 4: "AssertLicense e want percent = Some (errorString ''license not found'') \<and>
           TestPercent e t want percent = Fatal t (errorString ''license not found'')"
    if "ReadLicense e = (fn, b, None)" and "\<not> snd (Cover e b)"
    using that(1) nocov [OF that(2)] by (simp add: AssertLicense_def TestPercent_def)
  show ?thesis
    using 1 2 3 4 nocov by simp
qed

theorem not_found_signals_witness:
  "File_Readdirnames (example_env ''/docs'') (os_File ''/docs'') 0 = ([''README.md'', ''main.go''], None)
   \<and> find IsLicenseFilename [''README.md'', ''main.go''] = None
   \<and> AssertLicenseDir (example_env ''/docs'')
         (File_Readdirnames (example_env ''/docs'') (os_File ''/docs'')) 8 (Finite 90) = Some ErrNotExist
   \<and> os_Open (example_env ''/docs'') ''.'' = Inr (os_File ''.'')
   \<and> File_Readdirnames (example_env ''/docs'') (os_File ''.'') 0 = ([''README.md'', ''main.go''], None)
   \<and> AssertLicense (example_env ''/docs'') 8 (Finite 90) = Some ErrNotExist
   \<and> TestPercent (example_env ''/docs'') example_T 8 (Finite 90) =
       \<lparr>logs = [''file does not exist''], failed = True, stopped = True\<rparr>
   \<and> ReadLicenseDir (example_env ''/blank'') (File_Readdirnames (example_env ''/blank'') (os_File ''/blank'')) =
       (''UNLICENSE'', ''readme'', None)
   \<and> \<not> snd (Cover (example_env ''/blank'') ''readme'')
   \<and> AssertLicenseDir (example_env ''/blank'')
         (File_Readdirnames (example_env ''/blank'') (os_File ''/blank'')) 8 (Finite 90) =
       Some (errorString ''license not found'')
   \<and> ReadLicense (example_env ''/blank'') = (''UNLICENSE'', ''readme'', None)
   \<and> AssertLicense (example_env ''/blank'') 8 (Finite 90) = Some (errorString ''license not found'')
   \<and> TestPercent (example_env ''/blank'') example_T 8 (Finite 90) =
       \<lparr>logs = [''license not found''], failed = True, stopped = True\<rparr>"
proof -
  let ?d = "example_env ''/docs''" and ?b = "example_env ''/blank''"
  have l: "File_Readdirnames ?d (os_File ''/docs'') 0 = ([''README.md'', ''main.go''], None)"
    by (simp add: example_env_def example_dirs_def dir_of_def)
  have o: "os_Open ?d ''.'' = Inr (os_File ''.'')"
    by (simp add: os_Open_def)
  have l': "File_Readdirnames ?d (os_File ''.'') 0 = ([''README.md'', ''main.go''], None)"
    by (simp add: example_env_def example_dirs_def dir_of_def)
  have f: "find IsLicenseFilename [''README.md'', ''main.go''] = None"
    by (simp add: IsLicenseFilename_examples)
  have r: "ReadLicenseDir ?b (File_Readdirnames ?b (os_File ''/blank'')) = (''UNLICENSE'', ''readme'', None)"
    by (simp add: example_eval)
  have r': "ReadLicense ?b = (''UNLICENSE'', ''readme'', None)"
    by (rule example_ReadLicense)
  have c: "\<not> snd (Cover ?b ''readme'')"
    by (simp add: example_Cover_simps)
  note a = not_found_signals [where dir = "File_Readdirnames ?d (os_File ''/docs'')"
      and names = "[''README.md'', ''main.go'']" and e = ?d and want = 8 and percent = "Finite 90"
      and f = "os_File ''.''" and t = example_T]
  note b = not_found_signals [where dir = "File_Readdirnames ?b (os_File ''/blank'')"
      and e = ?b and want = 8 and percent = "Finite 90" and b = "''readme''"
      and fn = "''UNLICENSE''" and t = example_T]
  show ?thesis
    using l o l' f r r' c a b
    by (simp add: Fatal_def example_T_def del: File_Readdirnames.simps)
qed

text \<open>
  The claim C4 as stated fails: in a directory without a recognised name the assertion
  functions return \<open>os.ErrNotExist\<close>, not the error \<open>license not found\<close> that they
  return for a document without coverage.
\<close>

theorem not_found_signals_counterexample:
  "AssertLicenseDir (example_env ''/docs'')
      (File_Readdirnames (example_env ''/docs'') (os_File ''/docs'')) 8 (Finite 90) = Some ErrNotExist
   \<and> AssertLicense (example_env ''/docs'') 8 (Finite 90) = Some ErrNotExist
   \<and> assertLicense (example_env ''/docs'') ''readme'' 8 (Finite 90) =
       Some (errorString ''license not found'')
   \<and> AssertLicenseDir (example_env ''/blank'')
        (File_Readdirnames (example_env ''/blank'') (os_File ''/blank'')) 8 (Finite 90) =
       Some (errorString ''license not found'')
   \<and> AssertLicense (example_env ''/blank'') 8 (Finite 90) = Some (errorString ''license not found'')
   \<and> AssertLicenseDir (example_env ''/docs'')
        (File_Readdirnames (example_env ''/docs'') (os_File ''/docs'')) 8 (Finite 90) \<noteq>
       AssertLicenseDir (example_env ''/blank'')
        (File_Readdirnames (example_env ''/blank'') (os_File ''/blank'')) 8 (Finite 90)
   \<and> AssertLicense (example_env ''/docs'') 8 (Finite 90) \<noteq>
       AssertLicense (example_env ''/blank'') 8 (Finite 90)
   \<and> Error ErrNotExist \<noteq> ''license not found''"
proof -
  let ?d = "example_env ''/docs''" and ?b = "example_env ''/blank''"
  have a: "AssertLicenseDir ?d (File_Readdirnames ?d (os_File ''/docs'')) 8 (Finite 90) = Some ErrNotExist"
    by (simp add: AssertLicenseDir_def example_eval)
  have a': "AssertLicense ?d 8 (Finite 90) = Some ErrNotExist"
    by (simp add: AssertLicense_def example_ReadLicense)
  have n: "assertLicense ?d ''readme'' 8 (Finite 90) = Some (errorString ''license not found'')"
      "assertLicense ?b ''readme'' 8 (Finite 90) = Some (errorString ''license not found'')"
    by (simp_all add: assertLicense_def example_Cover_simps)
  have r: "ReadLicenseDir ?b (File_Readdirnames ?b (os_File ''/blank'')) = (''UNLICENSE'', ''readme'', None)"
    by (simp add: example_eval)
  have b: "AssertLicenseDir ?b (File_Readdirnames ?b (os_File ''/blank'')) 8 (Finite 90) =
      Some (errorString ''license not found'')"
    by (simp add: AssertLicenseDir_def r n)
  have b': "AssertLicense ?b 8 (Finite 90) = Some (errorString ''license not found'')"
    by (simp add: AssertLicense_def example_ReadLicense n)
  show ?thesis
    unfolding a a' b b' n by simp
qed

text \<open>
  C1, at an input where the code departs from it. The process runs in \<open>/work\<close> and is
  handed the directory \<open>/proj\<close>. The listing of \<open>/proj\<close> is scanned in order and
  \<open>LICENSE\<close> is the first recognised name, but the bytes returned are those of
  \<open>/work/LICENSE\<close>: \<open>ioutil.ReadFile(filename)\<close> resolves the bare name against the
  working directory, not against the directory that was listed. From \<open>/docs\<close>, which has
  no such file, the same call fails although \<open>/proj/LICENSE\<close> is readable.
\<close>

theorem ReadLicenseDir_reads_working_directory:
  "File_Readdirnames (example_env ''/work'') (os_File ''/proj'') 0 = ([''README.md'', ''LICENSE''], None)
   \<and> map_of example_dirs ''/proj'' =
       Some [(''README.md'', File ''readme''), (''LICENSE'', File ''MIT License'')]
   \<and> ReadLicenseDir (example_env ''/work'') (File_Readdirnames (example_env ''/work'') (os_File ''/proj'')) =
       (''LICENSE'', ''Apache License'', None)
   \<and> ReadLicenseDir (example_env ''/docs'') (File_Readdirnames (example_env ''/docs'') (os_File ''/proj'')) =
       (''LICENSE'', [], Some (PathError ''open'' ''LICENSE'' ''no such file or directory''))"
  by (simp add: example_eval)

section \<open>The test wrappers\<close>

text \<open>
  C8. \<open>Test\<close> is \<open>TestPercent\<close> with the threshold 90. \<open>TestPercent\<close> runs
  \<open>AssertLicense\<close>: on nil it leaves the test state as it was, on an error it reports
  the error with \<open>t.Fatal\<close> (the message is logged, the test is marked failed and
  stopped); the wrappers return nothing.
\<close>

theorem Test_is_TestPercent_90:
  "Test e t want = TestPercent e t want (Finite 90)
   \<and> (AssertLicense e want percent = None \<longrightarrow> TestPercent e t want percent = t)
   \<and> (AssertLicense e want percent = Some err \<longrightarrow>
        TestPercent e t want percent =
          t\<lparr>logs := logs t @ [Error err], failed := True, stopped := True\<rparr>)
   \<and> Test e t want =
       (case AssertLicense e want (Finite 90) of None \<Rightarrow> t | Some err \<Rightarrow> Fatal t err)"
  by (simp add: Test_def TestPercent_def Fatal_def split: option.splits)

theorem Test_is_TestPercent_90_witness:
  "AssertLicense (example_env ''/proj'') 8 (Finite 90) = None
   \<and> Test (example_env ''/proj'') example_T 8 = example_T
   \<and> AssertLicense (example_env ''/docs'') 8 (Finite 90) = Some ErrNotExist
   \<and> Test (example_env ''/docs'') example_T 8 =
       \<lparr>logs = [''file does not exist''], failed = True, stopped = True\<rparr>"
proof -
  have a: "AssertLicense (example_env ''/proj'') 8 (Finite 90) = None"
    by (simp add: AssertLicense_def example_ReadLicense assertLicense_def example_Cover_simps)
  have b: "AssertLicense (example_env ''/docs'') 8 (Finite 90) = Some ErrNotExist"
    by (simp add: AssertLicense_def example_ReadLicense)
  show ?thesis
    using a b
      Test_is_TestPercent_90 [of "example_env ''/proj''" example_T 8 "Finite 90"]
      Test_is_TestPercent_90 [of "example_env ''/docs''" example_T 8 "Finite 90" ErrNotExist]
    by (simp add: example_T_def)
qed

end
